theory Spec2Isabelle
  imports Complex_Main "HOL-Library.Log_Nat" "HOL-Library.Word"
begin

section \<open>Machine numbers\<close>

text \<open>
  The sketch computes with \<^verbatim>\<open>uint32_t\<close>, \<^verbatim>\<open>int32_t\<close> and \<^verbatim>\<open>float\<close>.
  The integers are 32-bit words (\<open>uint\<close> reads a \<^verbatim>\<open>uint32_t\<close>, \<open>sint\<close> an
  \<^verbatim>\<open>int32_t\<close>).  A finite \<^verbatim>\<open>float\<close> is the real number it denotes; every
  arithmetic operation computes the exact result and rounds it to binary32 (24 significant
  bits, round to nearest, ties to even).  The exponent range is not bounded: the magnitudes
  that occur between two casts to an integer stay far inside the range of binary32.
\<close>

type_synonym uint32 = "32 word"
type_synonym int32 = "32 word"
type_synonym float32 = real

definition ilog2 :: "real \<Rightarrow> int" where
  \<comment> \<open>the binary exponent of a positive number: \<open>2 powi ilog2 y \<le> y < 2 powi (ilog2 y + 1)\<close>\<close>
  "ilog2 y = (if 1 \<le> y then bitlen \<lfloor>y\<rfloor> - 1 else - bitlen (\<lceil>1 / y\<rceil> - 1))"

definition rne :: "real \<Rightarrow> int" where
  \<comment> \<open>round to the nearest integer, ties to the even one\<close>
  "rne x = (let f = \<lfloor>x\<rfloor>; d = x - of_int f in
     if d < 1 / 2 then f else if 1 / 2 < d then f + 1 else if even f then f else f + 1)"

definition rnd32 :: "real \<Rightarrow> float32" where
  "rnd32 x = (if x = 0 then 0 else
     let q = 2 powi (ilog2 \<bar>x\<bar> - 23) in of_int (rne (x / q)) * q)"

definition fadd :: "float32 \<Rightarrow> float32 \<Rightarrow> float32" where
  "fadd a b = rnd32 (a + b)"

definition fsub :: "float32 \<Rightarrow> float32 \<Rightarrow> float32" where
  "fsub a b = rnd32 (a - b)"

definition fmul :: "float32 \<Rightarrow> float32 \<Rightarrow> float32" where
  "fmul a b = rnd32 (a * b)"

text \<open>
  A quotient is the one place where the divisor can be zero (the elapsed time of a control
  tick), so its result keeps the special values of the format: a non-zero number divided by
  zero is an infinity with the sign of the dividend, and zero divided by zero is not a
  number.  A \<^verbatim>\<open>uint32_t\<close> converts to a non-negative zero, so the sign of the
  divisor plays no part.  Every ordered comparison with a NaN is false.
\<close>

datatype quotient = Finite float32 | PosInf | NegInf | NaN

definition fdiv :: "float32 \<Rightarrow> float32 \<Rightarrow> quotient" where
  "fdiv a b =
     (if b = 0 then (if a = 0 then NaN else if 0 < a then PosInf else NegInf)
      else Finite (rnd32 (a / b)))"

fun flt :: "quotient \<Rightarrow> float32 \<Rightarrow> bool" where
  "flt (Finite x) y = (x < y)"
| "flt NegInf y = True"
| "flt PosInf y = False"
| "flt NaN y = False"

text \<open>
  \<^verbatim>\<open>static_cast<float>\<close> of an integer rounds it; \<^verbatim>\<open>static_cast<uint32_t>\<close> and
  \<^verbatim>\<open>static_cast<int32_t>\<close> of a float truncate towards zero, and the language leaves the
  conversion undefined when the truncated value does not fit the destination: \<open>None\<close>.
\<close>

definition float_of_u32 :: "uint32 \<Rightarrow> float32" where
  "float_of_u32 w = rnd32 (of_int (uint w))"

definition float_of_i32 :: "int32 \<Rightarrow> float32" where
  "float_of_i32 w = rnd32 (of_int (sint w))"

definition trunc0 :: "real \<Rightarrow> int" where
  "trunc0 x = (if 0 \<le> x then \<lfloor>x\<rfloor> else \<lceil>x\<rceil>)"

definition u32_of_float :: "float32 \<Rightarrow> uint32 option" where
  "u32_of_float x =
     (let t = trunc0 x in if 0 \<le> t \<and> t < 2 ^ 32 then Some (word_of_int t) else None)"

definition i32_of_float :: "float32 \<Rightarrow> int32 option" where
  "i32_of_float x =
     (let t = trunc0 x in if - (2 ^ 31) \<le> t \<and> t < 2 ^ 31 then Some (word_of_int t) else None)"

section \<open>Helper functions for the HITEC servo\<close>

definition kZeroPosMicrosecs :: float32 where
  "kZeroPosMicrosecs = 1487"

definition kMicrosecPerDegree :: float32 where
  "kMicrosecPerDegree = rnd32 (9523809 / 1000000)"

definition kDegPerMicrosec :: float32 where
  "kDegPerMicrosec = rnd32 (1 / kMicrosecPerDegree)"

definition DegreesToMicroseconds :: "float32 \<Rightarrow> bool \<Rightarrow> uint32 option" where
  "DegreesToMicroseconds degreesIn isInverted =
     u32_of_float
       (fadd (fmul kMicrosecPerDegree (if isInverted then - degreesIn else degreesIn))
          kZeroPosMicrosecs)"

definition MicrosecondsToDegrees :: "uint32 \<Rightarrow> bool \<Rightarrow> float32" where
  "MicrosecondsToDegrees microsecondsIn isInverted =
     (if isInverted
      then - (fmul (fsub (float_of_u32 microsecondsIn) kZeroPosMicrosecs) kDegPerMicrosec)
      else fmul (fsub (float_of_u32 microsecondsIn) kZeroPosMicrosecs) kDegPerMicrosec)"

definition kNeutralPosition_deg :: float32 where
  "kNeutralPosition_deg = 0"

definition kNeutralPosition_us :: uint32 where
  "kNeutralPosition_us =
     (case DegreesToMicroseconds 0 False of Some u \<Rightarrow> u | None \<Rightarrow> 0)"

definition kDefaultSpeed :: float32 where
  "kDefaultSpeed = 50"

definition Encode :: "float32 \<Rightarrow> int32 option" where
  "Encode valueIn = i32_of_float (fmul valueIn 1000)"

definition Decode :: "int32 \<Rightarrow> float32" where
  "Decode valueIn = fmul (float_of_i32 valueIn) (rnd32 (1 / 1000))"

section \<open>The controller state\<close>

text \<open>
  The file-local attributes and settings of the module, and the output-compare register
  \<^verbatim>\<open>OCR1A\<close> that \<^verbatim>\<open>SetServoPosition\<close> writes.
\<close>

record ServoState =
  m_targetPos_deg :: float32
  m_currentPos_deg :: float32
  m_targetPos_us :: uint32
  m_currentPos_us :: uint32
  m_fCurrentPos_us :: float32
  m_tDelta :: uint32
  m_tLast :: uint32
  m_speed_deg_per_s :: float32
  m_isInverted :: int
  m_speed_us_per_ms :: float32
  OCR1A :: "16 word"

definition initial_state :: ServoState where
  "initial_state =
     \<lparr> m_targetPos_deg = kNeutralPosition_deg,
       m_currentPos_deg = kNeutralPosition_deg,
       m_targetPos_us = kNeutralPosition_us,
       m_currentPos_us = kNeutralPosition_us,
       m_fCurrentPos_us = kZeroPosMicrosecs,
       m_tDelta = 0,
       m_tLast = 0,
       m_speed_deg_per_s = kDefaultSpeed,
       m_isInverted = 0,
       m_speed_us_per_ms = fmul (fmul kDefaultSpeed (rnd32 (1 / 1000))) kMicrosecPerDegree,
       OCR1A = ucast (kNeutralPosition_us * 2) \<rparr>"

definition SetServoPosition :: "uint32 \<Rightarrow> ServoState \<Rightarrow> ServoState" where
  "SetServoPosition microsecondsIn s = s\<lparr>OCR1A := ucast (microsecondsIn * 2)\<rparr>"

section \<open>Commands and serial output\<close>

text \<open>
  A command carries its name and an array of \<^verbatim>\<open>int32_t\<close> arguments; the serial port
  receives what \<^verbatim>\<open>Serial.print\<close> and \<^verbatim>\<open>Serial.println\<close> are given, in order.
\<close>

record CCommand =
  m_text :: string
  m_arguments :: "nat \<Rightarrow> int32"

datatype serial_out = Print string | PrintInt int32 | PrintlnChar char

definition HandleMessages ::
    "ServoState \<Rightarrow> CCommand \<Rightarrow> (ServoState \<times> serial_out list) option" where
  "HandleMessages s command =
     (if m_text command = ''camServ_tpos'' then
        (let deg = Decode (m_arguments command 1) in
         case DegreesToMicroseconds deg (m_isInverted s \<noteq> 0) of
           None \<Rightarrow> None
         | Some us \<Rightarrow>
             Some (s\<lparr>m_targetPos_deg := deg, m_targetPos_us := us\<rparr>,
                   [Print ''camServ_tpos:'', PrintInt (m_arguments command 1),
                    PrintlnChar CHR '';'']))
      else if m_text command = ''camServ_spd'' then
        (let spd = Decode (m_arguments command 1) in
         Some (s\<lparr>m_speed_deg_per_s := spd,
                  m_speed_us_per_ms := fmul (fmul spd (rnd32 (1 / 1000))) kMicrosecPerDegree\<rparr>,
               [Print ''camServ_spd:'', PrintInt (m_arguments command 1),
                PrintlnChar CHR '';'']))
      else if m_text command = ''camServ_inv'' then
        (if m_arguments command 1 = 1 then
           Some (s\<lparr>m_isInverted := 1\<rparr>, [Print ''camServ_inv:1;''])
         else if m_arguments command 1 = 0 then
           Some (s\<lparr>m_isInverted := 0\<rparr>, [Print ''camServ_inv:0;''])
         else Some (s, []))
      else Some (s, []))"

section \<open>The servo adjustment\<close>

text \<open>
  Which way the position update goes once \<^verbatim>\<open>m_tDelta\<close> is known: nothing to do at the
  target, the direct move to the target, or the move by the delta.
\<close>

datatype branch = Hold | Snap | Step

definition position_error :: "ServoState \<Rightarrow> float32" where
  "position_error s = fsub (float_of_u32 (m_targetPos_us s)) (m_fCurrentPos_us s)"

definition update_branch :: "ServoState \<Rightarrow> branch" where
  "update_branch s =
     (if m_currentPos_us s \<noteq> m_targetPos_us s then
        (if flt (fdiv (position_error s) (float_of_u32 (m_tDelta s))) (m_speed_us_per_ms s)
         then Snap else Step)
      else Hold)"

definition publish_position :: "ServoState \<Rightarrow> ServoState" where
  \<comment> \<open>the tail of the update: drive the servo, refresh the position in degrees\<close>
  "publish_position s =
     (SetServoPosition (m_currentPos_us s) s)
       \<lparr>m_currentPos_deg := MicrosecondsToDegrees (m_currentPos_us s) False\<rparr>"

definition UpdatePosition :: "ServoState \<Rightarrow> ServoState option" where
  "UpdatePosition s =
     (case update_branch s of
        Hold \<Rightarrow> Some s
      | Snap \<Rightarrow>
          Some (publish_position
            (s\<lparr>m_currentPos_us := m_targetPos_us s,
               m_fCurrentPos_us := float_of_u32 (m_targetPos_us s)\<rparr>))
      | Step \<Rightarrow>
          (let f = fadd (m_fCurrentPos_us s) (fmul (m_speed_us_per_ms s) (position_error s)) in
           case u32_of_float f of
             None \<Rightarrow> None
           | Some u \<Rightarrow>
               Some (publish_position (s\<lparr>m_fCurrentPos_us := f, m_currentPos_us := u\<rparr>))))"

definition ControlTick :: "uint32 \<Rightarrow> uint32 \<Rightarrow> ServoState \<Rightarrow> ServoState option" where
  \<comment> \<open>the body run at 200Hz; the two arguments are what \<^verbatim>\<open>millis()\<close> returns at its
      beginning and at its end\<close>
  "ControlTick now now' s =
     (case UpdatePosition (s\<lparr>m_tDelta := now - m_tLast s\<rparr>) of
        None \<Rightarrow> None
      | Some s' \<Rightarrow> Some (s'\<lparr>m_tLast := now'\<rparr>))"

definition EmitTelemetry :: "ServoState \<Rightarrow> serial_out list option" where
  "EmitTelemetry s =
     (case Encode (m_currentPos_deg s) of
        None \<Rightarrow> None
      | Some v \<Rightarrow> Some [Print ''camServ_pos:'', PrintInt v, PrintlnChar CHR '';''])"

section \<open>The update entry point\<close>

text \<open>
  What one call of \<^verbatim>\<open>CCameraServo::Update\<close> reads from its collaborators: whether a
  command is available, whether each of the two timers has elapsed, and the clock.
\<close>

record UpdateInput =
  isCommandAvailable :: bool
  controlElapsed :: bool
  telemetryElapsed :: bool
  millis_begin :: uint32
  millis_end :: uint32

definition Update ::
    "UpdateInput \<Rightarrow> CCommand \<Rightarrow> ServoState \<Rightarrow> (ServoState \<times> serial_out list) option" where
  "Update inp command s =
     (case (if isCommandAvailable inp then HandleMessages s command else Some (s, [])) of
        None \<Rightarrow> None
      | Some (s1, out1) \<Rightarrow>
          (case (if controlElapsed inp then ControlTick (millis_begin inp) (millis_end inp) s1
                 else Some s1) of
             None \<Rightarrow> None
           | Some s2 \<Rightarrow>
               (if telemetryElapsed inp then
                  (case EmitTelemetry s2 of
                     None \<Rightarrow> None
                   | Some out2 \<Rightarrow> Some (s2, out1 @ out2))
                else Some (s2, out1))))"

section \<open>Commands, runs and example states\<close>

definition cmd :: "string \<Rightarrow> int32 \<Rightarrow> CCommand" where
  \<comment> \<open>the command \<^verbatim>\<open>name(arg)\<close>: its argument is at index 1\<close>
  "cmd name arg = \<lparr>m_text = name, m_arguments = (\<lambda>i. if i = 1 then arg else 0)\<rparr>"

definition target_in_sync :: "ServoState \<Rightarrow> bool" where
  \<comment> \<open>the target in microseconds is the image of the target in degrees under the stored flag\<close>
  "target_in_sync s \<longleftrightarrow>
     DegreesToMicroseconds (m_targetPos_deg s) (m_isInverted s \<noteq> 0) = Some (m_targetPos_us s)"

fun ticks :: "nat \<Rightarrow> uint32 \<Rightarrow> ServoState \<Rightarrow> ServoState option" where
  \<comment> \<open>\<open>n\<close> control ticks, one every \<open>p\<close> milliseconds, no command in between\<close>
  "ticks 0 p s = Some s"
| "ticks (Suc n) p s =
     (case ControlTick (m_tLast s + p) (m_tLast s + p) s of
        None \<Rightarrow> None
      | Some s' \<Rightarrow> ticks n p s')"

text \<open>The state at power-on, with the constants evaluated.\<close>

definition state_neutral :: ServoState where
  "state_neutral =
     \<lparr> m_targetPos_deg = 0, m_currentPos_deg = 0, m_targetPos_us = 1487,
       m_currentPos_us = 1487, m_fCurrentPos_us = 1487, m_tDelta = 0, m_tLast = 0,
       m_speed_deg_per_s = 50, m_isInverted = 0,
       m_speed_us_per_ms = 15978301 / 33554432, OCR1A = 2974 \<rparr>"

text \<open>After \<^verbatim>\<open>camServ_tpos(10000)\<close>, ten degrees, from power-on.\<close>

definition state_target_10 :: ServoState where
  "state_target_10 = state_neutral\<lparr>m_targetPos_deg := 10, m_targetPos_us := 1582\<rparr>"

text \<open>
  The servo has settled at 2000 microseconds and is commanded back to neutral at the
  default speed of 50 degrees per second; 5 ms have elapsed.
\<close>

definition state_above :: ServoState where
  "state_above =
     state_neutral\<lparr>m_currentPos_deg := 14120387 / 262144, m_currentPos_us := 2000,
       m_fCurrentPos_us := 2000, m_tDelta := 5, OCR1A := 4000\<rparr>"

text \<open>After \<^verbatim>\<open>camServ_spd(1000000)\<close> and \<^verbatim>\<open>camServ_tpos(10000)\<close> from power-on.\<close>

definition state_fast :: ServoState where
  "state_fast =
     state_neutral\<lparr>m_targetPos_deg := 10, m_targetPos_us := 1582,
       m_speed_deg_per_s := 16384001 / 16384, m_speed_us_per_ms := 9986439 / 1048576\<rparr>"

text \<open>After \<^verbatim>\<open>camServ_inv(1)\<close> and \<^verbatim>\<open>camServ_tpos(10000)\<close> from power-on.\<close>

definition state_inverted_10 :: ServoState where
  "state_inverted_10 =
     state_neutral\<lparr>m_targetPos_deg := 10, m_targetPos_us := 1391, m_isInverted := 1\<rparr>"

text \<open>
  The target is 1500 microseconds and the speed 0.3 degrees per second, as after
  \<^verbatim>\<open>camServ_spd(300)\<close> and \<^verbatim>\<open>camServ_tpos(1400)\<close>; the precise position stands
  87/4096 of a microsecond below the target, and 5 ms have elapsed.
\<close>

definition state_stalled :: ServoState where
  "state_stalled =
     \<lparr> m_targetPos_deg = 2936013 / 2097152, m_currentPos_deg = 5284823 / 4194304,
       m_targetPos_us = 1500, m_currentPos_us = 1499, m_fCurrentPos_us = 6143913 / 4096,
       m_tDelta = 5, m_tLast = 0, m_speed_deg_per_s = 5033165 / 16777216, m_isInverted = 0,
       m_speed_us_per_ms = 1533917 / 536870912, OCR1A = 2998 \<rparr>"

section \<open>Rounding to binary32\<close>

lemma ilog2_lower:
  assumes "0 < y"
  shows "2 powi ilog2 y \<le> y"
proof (cases "1 \<le> y")
  case True
  define n where "n = \<lfloor>y\<rfloor>"
  have n: "0 < n" using True by (simp add: n_def)
  have b: "1 \<le> bitlen n" using n by (simp add: bitlen_alt_def)
  have "2 powi (bitlen n - 1) = (2::real) ^ nat (bitlen n - 1)"
    using b by (simp add: power_int_def)
  also have "\<dots> \<le> of_int n"
    using bitlen_bounds [OF n] by (metis of_int_le_iff of_int_numeral of_int_power)
  also have "\<dots> \<le> y" by (simp add: n_def)
  finally show ?thesis using True by (simp add: ilog2_def n_def)
next
  case False
  define m where "m = \<lceil>1 / y\<rceil> - 1"
  have z: "1 < 1 / y" using False assms by simp
  have m: "0 < m" using z by (simp add: m_def less_ceiling_iff)
  have b: "1 \<le> bitlen m" using m by (simp add: bitlen_alt_def)
  have "1 / y \<le> of_int (m + 1)" by (simp add: m_def)
  also have "\<dots> \<le> (2::real) ^ nat (bitlen m)"
    using bitlen_bounds [OF m]
    by (metis of_int_le_iff of_int_numeral of_int_power zless_imp_add1_zle)
  finally have "1 / y \<le> (2::real) ^ nat (bitlen m)" .
  then have "1 / 2 ^ nat (bitlen m) \<le> y"
    using assms by (simp add: field_simps)
  moreover have "2 powi (- bitlen m) = 1 / (2::real) ^ nat (bitlen m)"
    using b by (simp add: power_int_def field_simps)
  ultimately show ?thesis using False by (simp add: ilog2_def m_def)
qed

lemma ilog2_upper:
  assumes "0 < y"
  shows "y < 2 powi (ilog2 y + 1)"
proof (cases "1 \<le> y")
  case True
  define n where "n = \<lfloor>y\<rfloor>"
  have n: "0 < n" using True by (simp add: n_def)
  have b: "1 \<le> bitlen n" using n by (simp add: bitlen_alt_def)
  have "y < of_int (n + 1)" by (simp add: n_def)
  also have "\<dots> \<le> (2::real) ^ nat (bitlen n)"
    using bitlen_bounds [OF n]
    by (metis of_int_le_iff of_int_numeral of_int_power zless_imp_add1_zle)
  also have "\<dots> = 2 powi (bitlen n)"
    using b by (simp add: power_int_def)
  finally show ?thesis using True by (simp add: ilog2_def n_def)
next
  case False
  define m where "m = \<lceil>1 / y\<rceil> - 1"
  have z: "1 < 1 / y" using False assms by simp
  have m: "0 < m" using z by (simp add: m_def less_ceiling_iff)
  have b: "1 \<le> bitlen m" using m by (simp add: bitlen_alt_def)
  have "(2::real) ^ nat (bitlen m - 1) \<le> of_int m"
    using bitlen_bounds [OF m] by (metis of_int_le_iff of_int_numeral of_int_power)
  also have "\<dots> < 1 / y" using ceiling_correct [of "1 / y"] by (simp add: m_def)
  finally have "(2::real) ^ nat (bitlen m - 1) < 1 / y" .
  then have "y < 1 / 2 ^ nat (bitlen m - 1)"
    using assms by (simp add: field_simps)
  moreover have "2 powi (- bitlen m + 1) = 1 / (2::real) ^ nat (bitlen m - 1)"
    using b by (simp add: power_int_def field_simps nat_diff_distrib) 
  ultimately show ?thesis using False by (simp add: ilog2_def m_def)
qed

lemma rne_of_int: "rne (of_int k) = k"
  by (simp add: rne_def)

lemma rne_mono: "x \<le> y \<Longrightarrow> rne x \<le> rne y"
proof -
  assume xy: "x \<le> y"
  have fl: "\<lfloor>x\<rfloor> \<le> \<lfloor>y\<rfloor>" using xy by (rule floor_mono)
  have lo: "\<lfloor>y\<rfloor> \<le> rne y" by (simp add: rne_def Let_def)
  have hi: "rne x \<le> \<lfloor>x\<rfloor> + 1" by (simp add: rne_def Let_def)
  show ?thesis
  proof (cases "\<lfloor>x\<rfloor> = \<lfloor>y\<rfloor>")
    case True
    then show ?thesis using xy by (auto simp add: rne_def Let_def)
  next
    case False
    then have "\<lfloor>x\<rfloor> + 1 \<le> \<lfloor>y\<rfloor>" using fl by linarith
    then show ?thesis using lo hi by linarith
  qed
qed

lemma rne_minus: "rne (- x) = - rne x"
proof (cases "x \<in> \<int>")
  case True
  then obtain k where "x = of_int k" by (auto elim: Ints_cases)
  then show ?thesis using rne_of_int [of "- k"] by (simp add: rne_of_int)
next
  case False
  then have "x \<noteq> of_int \<lfloor>x\<rfloor>" by (metis Ints_of_int)
  then have c: "\<lfloor>- x\<rfloor> = - \<lfloor>x\<rfloor> - 1"
    by (simp add: floor_minus ceiling_altdef)
  show ?thesis
    unfolding rne_def Let_def c by (auto simp add: field_simps)
qed

lemma rnd32_zero: "rnd32 0 = 0"
  by (simp add: rnd32_def)

lemma rnd32_minus: "rnd32 (- x) = - rnd32 x"
  by (simp add: rnd32_def Let_def rne_minus)


lemma ilog2_mono:
  assumes "0 < x" and "x \<le> y"
  shows "ilog2 x \<le> ilog2 y"
proof (rule ccontr)
  assume "\<not> ilog2 x \<le> ilog2 y"
  then have "ilog2 y + 1 \<le> ilog2 x" by simp
  then have "(2::real) powi (ilog2 y + 1) \<le> 2 powi ilog2 x"
    by (intro power_int_increasing) simp_all
  moreover have "y < 2 powi (ilog2 y + 1)" using assms by (intro ilog2_upper) simp
  moreover have "2 powi ilog2 x \<le> x" using assms by (intro ilog2_lower)
  ultimately show False using assms by linarith
qed

lemma powi_shift: "(2::real) powi e = 2 ^ 23 * 2 powi (e - 23)"
  by (simp add: power_int_diff)

lemma powi_shift': "(2::real) powi (e + 1) = 2 ^ 24 * 2 powi (e - 23)"
  by (simp add: power_int_diff power_int_add)

lemma scaled_bounds:
  assumes "0 < x"
  shows "2 ^ 23 \<le> x / 2 powi (ilog2 x - 23)" and "x / 2 powi (ilog2 x - 23) < 2 ^ 24"
proof -
  have q: "0 < (2::real) powi (ilog2 x - 23)" by simp
  show "2 ^ 23 \<le> x / 2 powi (ilog2 x - 23)"
    using ilog2_lower [OF assms] q powi_shift [of "ilog2 x"]
    by (simp add: pos_le_divide_eq)
  show "x / 2 powi (ilog2 x - 23) < 2 ^ 24"
    using ilog2_upper [OF assms] q powi_shift' [of "ilog2 x"]
    by (simp add: pos_divide_less_eq)
qed

lemma rne_scaled_bounds:
  assumes "0 < x"
  shows "2 ^ 23 \<le> rne (x / 2 powi (ilog2 x - 23))" and "rne (x / 2 powi (ilog2 x - 23)) \<le> 2 ^ 24"
proof -
  have "rne (of_int (2 ^ 23)) \<le> rne (x / 2 powi (ilog2 x - 23))"
    using scaled_bounds(1) [OF assms] by (intro rne_mono) simp
  then show "2 ^ 23 \<le> rne (x / 2 powi (ilog2 x - 23))" by (simp only: rne_of_int)
  have "rne (x / 2 powi (ilog2 x - 23)) \<le> rne (of_int (2 ^ 24))"
    using scaled_bounds(2) [OF assms] by (intro rne_mono) simp
  then show "rne (x / 2 powi (ilog2 x - 23)) \<le> 2 ^ 24" by (simp only: rne_of_int)
qed

lemma rnd32_pos_lower:
  assumes "0 < x"
  shows "2 powi ilog2 x \<le> rnd32 x"
proof -
  have "(2::real) ^ 23 \<le> of_int (rne (x / 2 powi (ilog2 x - 23)))"
    using rne_scaled_bounds(1) [OF assms] by (metis of_int_le_iff of_int_numeral of_int_power)
  then have "2 ^ 23 * 2 powi (ilog2 x - 23) \<le> of_int (rne (x / 2 powi (ilog2 x - 23))) * (2::real) powi (ilog2 x - 23)"
    by (intro mult_right_mono) simp_all
  then show ?thesis using assms powi_shift [of "ilog2 x"]
    by (simp add: rnd32_def Let_def)
qed

lemma rnd32_pos_upper:
  assumes "0 < x"
  shows "rnd32 x \<le> 2 powi (ilog2 x + 1)"
proof -
  have "of_int (rne (x / 2 powi (ilog2 x - 23))) \<le> (2::real) ^ 24"
    using rne_scaled_bounds(2) [OF assms] by (metis of_int_le_iff of_int_numeral of_int_power)
  then have "of_int (rne (x / 2 powi (ilog2 x - 23))) * 2 powi (ilog2 x - 23) \<le> 2 ^ 24 * (2::real) powi (ilog2 x - 23)"
    by (intro mult_right_mono) simp_all
  then show ?thesis using assms powi_shift' [of "ilog2 x"]
    by (simp add: rnd32_def Let_def)
qed

lemma rnd32_pos: "0 < x \<Longrightarrow> 0 < rnd32 x"
  using rnd32_pos_lower [of x] zero_less_power_int [of "2::real" "ilog2 x"] by linarith

lemma rnd32_mono_pos:
  assumes "0 < x" and "x \<le> y"
  shows "rnd32 x \<le> rnd32 y"
proof (cases "ilog2 x = ilog2 y")
  case True
  have y: "0 < y" using assms by simp
  have "x / 2 powi (ilog2 y - 23) \<le> y / 2 powi (ilog2 y - 23)"
    using assms by (simp add: divide_right_mono)
  then have "rne (x / 2 powi (ilog2 y - 23)) \<le> rne (y / 2 powi (ilog2 y - 23))"
    by (rule rne_mono)
  then have "of_int (rne (x / 2 powi (ilog2 y - 23))) * 2 powi (ilog2 y - 23)
      \<le> of_int (rne (y / 2 powi (ilog2 y - 23))) * (2::real) powi (ilog2 y - 23)"
    by (intro mult_right_mono) simp_all
  then show ?thesis using assms y True by (simp add: rnd32_def Let_def)
next
  case False
  have y: "0 < y" using assms by simp
  have "ilog2 x + 1 \<le> ilog2 y" using ilog2_mono [OF assms] False by simp
  then have "(2::real) powi (ilog2 x + 1) \<le> 2 powi ilog2 y"
    by (intro power_int_increasing) simp_all
  then show ?thesis
    using rnd32_pos_upper [OF assms(1)] rnd32_pos_lower [OF y] by linarith
qed

lemma rnd32_mono:
  assumes "x \<le> y"
  shows "rnd32 x \<le> rnd32 y"
proof -
  consider "0 < x" | "x \<le> 0" "0 \<le> y" | "y < 0" by linarith
  then show ?thesis
  proof cases
    case 1
    then show ?thesis using assms by (rule rnd32_mono_pos)
  next
    case 2
    have "rnd32 x \<le> 0"
      using 2(1) rnd32_pos [of "- x"] by (cases "x = 0") (simp_all add: rnd32_zero rnd32_minus)
    moreover have "0 \<le> rnd32 y"
      using 2(2) rnd32_pos [of y] by (cases "y = 0") (simp_all add: rnd32_zero)
    ultimately show ?thesis by simp
  next
    case 3
    then have "rnd32 (- y) \<le> rnd32 (- x)" using assms by (intro rnd32_mono_pos) simp_all
    then show ?thesis by (simp add: rnd32_minus)
  qed
qed


lemma rnd32_grid:
  assumes "\<bar>k\<bar> < 2 ^ 24"
  shows "rnd32 (of_int k * 2 powi e) = of_int k * 2 powi e"
proof (cases "k = 0")
  case True
  then show ?thesis by (simp add: rnd32_zero)
next
  case False
  define x :: real where "x = of_int k * 2 powi e"
  define E where "E = ilog2 \<bar>x\<bar>"
  have ax: "\<bar>x\<bar> = of_int \<bar>k\<bar> * 2 powi e" by (simp add: x_def abs_mult)
  have xpos: "0 < \<bar>x\<bar>" using False by (simp add: x_def)
  have "of_int \<bar>k\<bar> < (2::real) ^ 24"
    using assms by (metis of_int_less_iff of_int_numeral of_int_power)
  then have "\<bar>x\<bar> < 2 ^ 24 * 2 powi e"
    unfolding ax by (intro mult_strict_right_mono) simp_all
  also have "\<dots> = 2 powi (e + 24)" by (simp add: power_int_add)
  finally have up: "\<bar>x\<bar> < 2 powi (e + 24)" .
  have "\<not> e + 24 \<le> E"
  proof
    assume "e + 24 \<le> E"
    then have "(2::real) powi (e + 24) \<le> 2 powi E" by (intro power_int_increasing) simp_all
    then show False using ilog2_lower [OF xpos] up by (simp add: E_def)
  qed
  then have d: "0 \<le> e - E + 23" by simp
  have "x / 2 powi (E - 23) = of_int k * (2 powi e / 2 powi (E - 23))" by (simp add: x_def)
  also have "2 powi e / 2 powi (E - 23) = (2::real) powi (e - E + 23)"
    by (simp add: power_int_diff power_int_add)
  also have "\<dots> = 2 ^ nat (e - E + 23)" using d by (simp add: power_int_nonneg_exp)
  finally have "x / 2 powi (E - 23) = of_int (k * 2 ^ nat (e - E + 23))" by simp
  then have "rne (x / 2 powi (E - 23)) = k * 2 ^ nat (e - E + 23)" by (simp only: rne_of_int)
  then have "of_int (rne (x / 2 powi (E - 23))) * 2 powi (E - 23)
      = of_int k * (2 ^ nat (e - E + 23) * (2::real) powi (E - 23))" by simp
  also have "2 ^ nat (e - E + 23) * (2::real) powi (E - 23) = 2 powi (e - E + 23) * 2 powi (E - 23)"
    using d by (simp add: power_int_nonneg_exp)
  also have "\<dots> = 2 powi e" by (simp flip: power_int_add)
  finally have "of_int (rne (x / 2 powi (E - 23))) * 2 powi (E - 23) = x" by (simp add: x_def)
  then have "rnd32 x = x" using xpos by (simp add: rnd32_def Let_def E_def)
  then show ?thesis by (simp add: x_def)
qed

lemma rnd32_of_int:
  assumes "\<bar>k\<bar> < 2 ^ 24"
  shows "rnd32 (of_int k) = of_int k"
  using rnd32_grid [OF assms, of 0] by simp

lemma rnd32_idem: "rnd32 (rnd32 x) = rnd32 x"
proof -
  have pos: "rnd32 (rnd32 y) = rnd32 y" if y: "0 < y" for y
  proof -
    define m where "m = rne (y / 2 powi (ilog2 y - 23))"
    have r: "rnd32 y = of_int m * 2 powi (ilog2 y - 23)"
      using y by (simp add: rnd32_def Let_def m_def)
    have m: "2 ^ 23 \<le> m" "m \<le> 2 ^ 24"
      using rne_scaled_bounds [OF y] by (simp_all add: m_def)
    show ?thesis
    proof (cases "m = 2 ^ 24")
      case True
      have "rnd32 y = of_int (2 ^ 23) * 2 powi (ilog2 y - 22)"
        unfolding r True by (simp add: power_int_diff)
      moreover have "rnd32 (of_int (2 ^ 23) * 2 powi (ilog2 y - 22)) = of_int (2 ^ 23) * 2 powi (ilog2 y - 22)"
        by (rule rnd32_grid) simp
      ultimately show ?thesis by simp
    next
      case False
      then have "\<bar>m\<bar> < 2 ^ 24" using m by simp
      then show ?thesis unfolding r by (rule rnd32_grid)
    qed
  qed
  consider "0 < x" | "x = 0" | "0 < - x" by linarith
  then show ?thesis
  proof cases
    case 1
    then show ?thesis by (rule pos)
  next
    case 2
    then show ?thesis by (simp add: rnd32_zero)
  next
    case 3
    then show ?thesis using pos [of "- x"] by (simp add: rnd32_minus)
  qed
qed

lemma rnd32_abs_error:
  assumes "\<bar>x\<bar> \<le> (2 ^ 24 - 1) * 2 powi e"
  shows "\<bar>rnd32 x - x\<bar> \<le> 2 powi e"
proof -
  define y where "y = x / 2 powi e"
  have q: "0 < (2::real) powi e" by simp
  have xy: "x = y * 2 powi e" by (simp add: y_def)
  have "\<bar>y\<bar> \<le> 2 ^ 24 - 1"
    using assms q unfolding y_def by (simp add: pos_divide_le_eq)
  then have y: "- (2 ^ 24 - 1) \<le> y" "y \<le> 2 ^ 24 - 1" by linarith+
  have lo: "- (2 ^ 24 - 1) \<le> \<lfloor>y\<rfloor>" using y(1) by (simp add: le_floor_iff)
  have hi: "\<lceil>y\<rceil> \<le> 2 ^ 24 - 1" using y(2) by (simp add: ceiling_le_iff)
  have fl: "\<bar>\<lfloor>y\<rfloor>\<bar> < 2 ^ 24" using lo hi floor_le_ceiling [of y] by linarith
  have ce: "\<bar>\<lceil>y\<rceil>\<bar> < 2 ^ 24" using lo hi floor_le_ceiling [of y] by linarith
  have "of_int \<lfloor>y\<rfloor> * 2 powi e \<le> x"
    unfolding xy by (intro mult_right_mono) simp_all
  then have "rnd32 (of_int \<lfloor>y\<rfloor> * 2 powi e) \<le> rnd32 x" by (rule rnd32_mono)
  then have l: "of_int \<lfloor>y\<rfloor> * 2 powi e \<le> rnd32 x" by (simp only: rnd32_grid [OF fl])
  have "x \<le> of_int \<lceil>y\<rceil> * 2 powi e"
    unfolding xy by (intro mult_right_mono) simp_all
  then have "rnd32 x \<le> rnd32 (of_int \<lceil>y\<rceil> * 2 powi e)" by (rule rnd32_mono)
  then have u: "rnd32 x \<le> of_int \<lceil>y\<rceil> * 2 powi e" by (simp only: rnd32_grid [OF ce])
  have "\<lceil>y\<rceil> \<le> \<lfloor>y\<rfloor> + 1" using ceiling_diff_floor_le_1 [of y] by linarith
  then have "real_of_int \<lceil>y\<rceil> \<le> real_of_int (\<lfloor>y\<rfloor> + 1)" by (simp only: of_int_le_iff)
  then have "of_int \<lceil>y\<rceil> \<le> of_int \<lfloor>y\<rfloor> + (1::real)" by simp
  then have w: "of_int \<lceil>y\<rceil> * 2 powi e \<le> of_int \<lfloor>y\<rfloor> * 2 powi e + (2::real) powi e"
    using mult_right_mono [of "of_int \<lceil>y\<rceil>" "of_int \<lfloor>y\<rfloor> + (1::real)" "2 powi e"]
    by (simp add: algebra_simps)
  have "of_int \<lfloor>y\<rfloor> * 2 powi e \<le> x" and "x \<le> of_int \<lceil>y\<rceil> * 2 powi e"
    unfolding xy by (intro mult_right_mono; simp)+
  then show ?thesis using l u w by linarith
qed

section \<open>Conversions between integers and floats\<close>

lemma rnd32_nonneg: "0 \<le> x \<Longrightarrow> 0 \<le> rnd32 x"
  using rnd32_mono [of 0 x] by (simp add: rnd32_zero)

lemma rnd32_nonpos: "x \<le> 0 \<Longrightarrow> rnd32 x \<le> 0"
  using rnd32_mono [of x 0] by (simp add: rnd32_zero)

lemma rnd32_neg: "x < 0 \<Longrightarrow> rnd32 x < 0"
  using rnd32_pos [of "- x"] by (simp add: rnd32_minus)

lemma float_of_u32_exact:
  assumes "uint w < 2 ^ 24"
  shows "float_of_u32 w = of_int (uint w)"
  unfolding float_of_u32_def using assms by (intro rnd32_of_int) simp

lemma float_of_u32_nonneg: "0 \<le> float_of_u32 w"
  unfolding float_of_u32_def by (intro rnd32_nonneg of_int_nonneg) simp

lemma u32_of_float_Some:
  assumes "u32_of_float x = Some u"
  shows "uint u = trunc0 x" and "- 1 < x"
proof -
  have t: "0 \<le> trunc0 x" "trunc0 x < 2 ^ 32" and u: "u = word_of_int (trunc0 x)"
    using assms by (auto simp add: u32_of_float_def Let_def split: if_splits)
  show "uint u = trunc0 x"
    unfolding u using t by (simp add: uint_word_of_int take_bit_int_eq_self)
  show "- 1 < x"
    using t(1) by (auto simp add: trunc0_def le_ceiling_iff split: if_splits)
qed

lemma u32_of_float_lower:
  assumes "u32_of_float x = Some u" and "0 < uint u"
  shows "of_int (uint u) \<le> x"
proof -
  have "uint u = trunc0 x" using assms(1) by (rule u32_of_float_Some)
  then show ?thesis using assms(2)
    by (auto simp add: trunc0_def split: if_splits)
qed

lemma u32_of_float_of_int:
  assumes "0 \<le> k" and "k < 2 ^ 32"
  shows "u32_of_float (real_of_int k) = Some (word_of_int k)"
  using assms by (simp add: u32_of_float_def trunc0_def)

lemma u32_of_float_of_u32:
  "u32_of_float (real_of_int (uint w)) = Some (w :: uint32)"
proof -
  have "uint w < 2 ^ 32" using uint_lt2p [of w] by simp
  with uint_ge_0 [of w] have "u32_of_float (real_of_int (uint w)) = Some (word_of_int (uint w))"
    by (rule u32_of_float_of_int)
  then show ?thesis by (simp only: word_of_int_uint)
qed

lemma trunc0_le:
  assumes "x \<le> real_of_int k + 1 / 2" and "0 \<le> k"
  shows "trunc0 x \<le> k"
proof (cases "0 \<le> x")
  case True
  have "x < real_of_int k + 1" using assms(1) by linarith
  then have "\<lfloor>x\<rfloor> \<le> k" by (simp add: floor_le_iff)
  then show ?thesis using True by (simp add: trunc0_def)
next
  case False
  then have "\<lceil>x\<rceil> \<le> 0" by (simp add: ceiling_le_iff)
  then have "\<lceil>x\<rceil> \<le> k" using assms(2) by linarith
  then show ?thesis using False by (simp add: trunc0_def)
qed

section \<open>The constants and the example states\<close>

lemma kMicrosecPerDegree_value: "kMicrosecPerDegree = 4993219 / 524288"
  by code_simp

lemma kDegPerMicrosec_value: "kDegPerMicrosec = 7046431 / 67108864"
  by code_simp

lemma initial_state_value: "initial_state = state_neutral"
  by code_simp

section \<open>The unit converter\<close>

lemma trunc0_range_u32: "(0 \<le> trunc0 x \<and> trunc0 x < 2 ^ 32) = (- 1 < x \<and> x < 2 ^ 32)"
  by (auto simp add: trunc0_def floor_less_iff le_ceiling_iff ceiling_less_iff less_ceiling_iff)

text \<open>
  C10, as stated, fails.  At minus 200 degrees the pulse width computed in floating point is
  negative, about minus 418, and its conversion to \<^verbatim>\<open>uint32_t\<close> is undefined; the
  command \<^verbatim>\<open>camServ_tpos(-200000)\<close> reaches it from power-on.
\<close>

theorem DegreesToMicroseconds_undefined_example:
  "DegreesToMicroseconds (- 200) False = None \<and>
   HandleMessages state_neutral (cmd ''camServ_tpos'' (- 200000)) = None"
  by code_simp

text \<open>
  C10, amended.  \<^verbatim>\<open>DegreesToMicroseconds\<close> is defined exactly for the angles whose
  pulse width, computed in single precision, lies strictly between minus one and
  \<open>2 ^ 32\<close>; its result is then that pulse width truncated towards zero.
\<close>

theorem DegreesToMicroseconds_defined_iff:
  assumes "p = fadd (fmul kMicrosecPerDegree (if isInverted then - d else d)) kZeroPosMicrosecs"
  shows "(DegreesToMicroseconds d isInverted \<noteq> None) = (- 1 < p \<and> p < 2 ^ 32) \<and>
         (\<forall>u. DegreesToMicroseconds d isInverted = Some u \<longrightarrow> uint u = trunc0 p)"
proof -
  have "uint (word_of_int (trunc0 p) :: uint32) = trunc0 p"
    if "0 \<le> trunc0 p" and "trunc0 p < 2 ^ 32"
    using that by (simp add: uint_word_of_int take_bit_int_eq_self)
  then show ?thesis
    using trunc0_range_u32 [of p]
    by (auto simp add: DegreesToMicroseconds_def u32_of_float_def Let_def assms [symmetric])
qed

theorem DegreesToMicroseconds_defined_iff_witness:
  "DegreesToMicroseconds 10 True = Some 1391 \<and>
   uint (1391 :: uint32) = trunc0 (fadd (fmul kMicrosecPerDegree (- 10)) kZeroPosMicrosecs)"
proof -
  have d: "DegreesToMicroseconds 10 True = Some 1391" by code_simp
  show ?thesis using DegreesToMicroseconds_defined_iff [OF refl, where d = 10 and isInverted = True] d by simp
qed

section \<open>Degrees to microseconds and back\<close>

text \<open>
  Within 150 degrees of neutral the pulse width is defined, and converting it back without
  inversion misses the angle by less than 0.106 degrees: the truncation to a whole
  microsecond costs up to one microsecond, 0.105 degrees, and the three roundings little.
\<close>

lemma round_trip_core:
  assumes x: "\<bar>x\<bar> \<le> 150"
  shows "\<exists>u. u32_of_float (fadd (fmul kMicrosecPerDegree x) kZeroPosMicrosecs) = Some u \<and>
           \<bar>fmul (fsub (float_of_u32 u) kZeroPosMicrosecs) kDegPerMicrosec - x\<bar> < 53 / 500"
proof -
  define a where "a = rnd32 (4993219 / 524288 * x)"
  define b where "b = rnd32 (a + 1487)"
  define n where "n = \<lfloor>b\<rfloor>"
  define M where "M = rnd32 (real_of_int (n - 1487) * (7046431 / 67108864))"
  have "\<bar>4993219 / 524288 * x\<bar> \<le> 2047" using x by linarith
  moreover have "(2047::real) \<le> (2 ^ 24 - 1) * 2 powi (- 13)"
    by (simp add: power_int_minus_divide)
  ultimately have "\<bar>4993219 / 524288 * x\<bar> \<le> (2 ^ 24 - 1) * 2 powi (- 13)" by linarith
  then have "\<bar>rnd32 (4993219 / 524288 * x) - 4993219 / 524288 * x\<bar> \<le> 2 powi (- 13)"
    by (rule rnd32_abs_error)
  then have a: "\<bar>a - 4993219 / 524288 * x\<bar> \<le> 1 / 8192"
    by (simp add: a_def power_int_minus_divide)
  have "\<bar>a + 1487\<bar> \<le> 4095" using a x by linarith
  moreover have "(4095::real) \<le> (2 ^ 24 - 1) * 2 powi (- 12)"
    by (simp add: power_int_minus_divide)
  ultimately have "\<bar>a + 1487\<bar> \<le> (2 ^ 24 - 1) * 2 powi (- 12)" by linarith
  then have "\<bar>rnd32 (a + 1487) - (a + 1487)\<bar> \<le> 2 powi (- 12)"
    by (rule rnd32_abs_error)
  then have b: "\<bar>b - (a + 1487)\<bar> \<le> 1 / 4096"
    by (simp add: b_def power_int_minus_divide)
  have b_range: "58 < b" "b < 2916" using a b x by linarith+
  have n_b: "real_of_int n \<le> b" "b < real_of_int n + 1" by (simp_all add: n_def)
  have n_range: "58 \<le> n" "n < 2916"
    using b_range by (simp_all add: n_def le_floor_iff floor_less_iff)
  have t: "trunc0 b = n" using b_range by (simp add: trunc0_def n_def)
  define u :: uint32 where "u = word_of_int n"
  have uint_u: "uint u = n"
    unfolding u_def using n_range by (simp add: uint_word_of_int take_bit_int_eq_self)
  have conv: "u32_of_float b = Some u"
    using n_range by (simp add: u32_of_float_def t u_def)
  have "float_of_u32 u = real_of_int n"
    using float_of_u32_exact [of u] n_range by (simp add: uint_u)
  then have "fsub (float_of_u32 u) kZeroPosMicrosecs = rnd32 (real_of_int (n - 1487))"
    by (simp add: fsub_def kZeroPosMicrosecs_def)
  also have "\<dots> = real_of_int (n - 1487)" using n_range by (intro rnd32_of_int) simp
  finally have deg: "fmul (fsub (float_of_u32 u) kZeroPosMicrosecs) kDegPerMicrosec = M"
    by (simp add: fmul_def M_def kDegPerMicrosec_value)
  have "\<bar>real_of_int (n - 1487) * (7046431 / 67108864)\<bar> \<le> 255"
    using n_range by simp
  moreover have "(255::real) \<le> (2 ^ 24 - 1) * 2 powi (- 16)"
    by (simp add: power_int_minus_divide)
  ultimately have "\<bar>real_of_int (n - 1487) * (7046431 / 67108864)\<bar> \<le> (2 ^ 24 - 1) * 2 powi (- 16)"
    by linarith
  then have "\<bar>rnd32 (real_of_int (n - 1487) * (7046431 / 67108864))
      - real_of_int (n - 1487) * (7046431 / 67108864)\<bar> \<le> 2 powi (- 16)"
    by (rule rnd32_abs_error)
  then have M: "\<bar>M - (real_of_int n - 1487) * (7046431 / 67108864)\<bar> \<le> 1 / 65536"
    by (simp add: M_def power_int_minus_divide)
  have "\<bar>M - x\<bar> < 53 / 500" using M n_b a b x by argo
  moreover have "fadd (fmul kMicrosecPerDegree x) kZeroPosMicrosecs = b"
    by (simp add: fadd_def fmul_def b_def a_def kMicrosecPerDegree_value kZeroPosMicrosecs_def)
  ultimately show ?thesis using conv deg by auto
qed

text \<open>
  C9, as stated, fails.  A tenth of a degree, \<^verbatim>\<open>Decode(100)\<close>, converts to 1487
  microseconds, the neutral pulse, and 1487 microseconds convert back to zero degrees: the
  round trip loses the whole angle, a hundred per cent, not a floating-point tolerance.
\<close>

theorem round_trip_loses_small_angle_example:
  "Decode 100 = 13421773 / 134217728 \<and>
   DegreesToMicroseconds (Decode 100) False = Some 1487 \<and>
   MicrosecondsToDegrees 1487 False = 0 \<and>
   \<bar>MicrosecondsToDegrees 1487 False - Decode 100\<bar> > 99 / 1000"
  by code_simp

text \<open>
  C9, amended.  For every angle within 150 degrees of neutral and both inversion states the
  pulse width is defined and the round trip returns the angle to within 0.106 degrees, one
  microsecond of pulse width; \<^verbatim>\<open>MicrosecondsToDegrees\<close> inverts
  \<^verbatim>\<open>DegreesToMicroseconds\<close> up to the truncation to whole microseconds only.
\<close>

theorem round_trip_within_one_step:
  assumes "\<bar>d\<bar> \<le> 150"
  shows "\<exists>u. DegreesToMicroseconds d isInverted = Some u \<and>
           \<bar>MicrosecondsToDegrees u isInverted - d\<bar> < 53 / 500"
proof (cases isInverted)
  case True
  have "\<bar>- d\<bar> \<le> 150" using assms by simp
  from round_trip_core [OF this] obtain u where
    u: "u32_of_float (fadd (fmul kMicrosecPerDegree (- d)) kZeroPosMicrosecs) = Some u"
    and near: "\<bar>fmul (fsub (float_of_u32 u) kZeroPosMicrosecs) kDegPerMicrosec - (- d)\<bar> < 53 / 500"
    by auto
  have "\<bar>- fmul (fsub (float_of_u32 u) kZeroPosMicrosecs) kDegPerMicrosec - d\<bar> < 53 / 500"
    using near by linarith
  then show ?thesis
    using True u by (simp add: DegreesToMicroseconds_def MicrosecondsToDegrees_def)
next
  case False
  from round_trip_core [OF assms] show ?thesis
    using False by (auto simp add: DegreesToMicroseconds_def MicrosecondsToDegrees_def)
qed

theorem round_trip_within_one_step_witness:
  "\<bar>10 :: real\<bar> \<le> 150 \<and> DegreesToMicroseconds 10 True = Some 1391 \<and>
   \<bar>MicrosecondsToDegrees 1391 True - 10\<bar> < 53 / 500"
proof -
  have d: "DegreesToMicroseconds 10 True = Some 1391" by code_simp
  have "\<bar>10 :: real\<bar> \<le> 150" by simp
  from round_trip_within_one_step [OF this, of True] show ?thesis using d by simp
qed

section \<open>The wire encoding\<close>

lemma trunc0_abs:
  "\<bar>real_of_int (trunc0 x)\<bar> \<le> \<bar>x\<bar> \<and> \<bar>x\<bar> < \<bar>real_of_int (trunc0 x)\<bar> + 1"
  unfolding trunc0_def by (cases "0 \<le> x") (simp_all, linarith+)

text \<open>
  C8, as stated, fails: 1/512 times 1000 is 1.953125, which rounds to 2, and
  \<^verbatim>\<open>Encode\<close> gives 1.  So it does on a position the controller reports: at 65536
  microseconds the position in degrees times 1000 is 6725145.5078125, which rounds to
  6725146, and \<^verbatim>\<open>Encode\<close> gives 6725145.
\<close>

theorem Encode_not_round_example:
  "Encode (1 / 512) = Some 1 \<and> round ((1 / 512 :: real) * 1000) = 2 \<and>
   MicrosecondsToDegrees 65536 False = 6886549 / 1024 \<and>
   Encode (6886549 / 1024) = Some 6725145 \<and>
   round ((6886549 / 1024 :: real) * 1000) = 6725146"
  by code_simp

text \<open>
  C8, amended.  Where \<^verbatim>\<open>Encode\<close> is defined, its result is the single-precision
  product of the value and 1000 truncated towards zero: no larger in magnitude than the
  product, and less than one below it.
\<close>

theorem Encode_truncates:
  assumes "Encode v = Some r"
  shows "sint r = trunc0 (fmul v 1000) \<and>
         \<bar>real_of_int (sint r)\<bar> \<le> \<bar>fmul v 1000\<bar> \<and>
         \<bar>fmul v 1000\<bar> < \<bar>real_of_int (sint r)\<bar> + 1"
proof -
  define t where "t = trunc0 (fmul v 1000)"
  have range: "- (2 ^ 31) \<le> t" "t < 2 ^ 31" and r: "r = word_of_int t"
    using assms by (auto simp add: Encode_def i32_of_float_def Let_def t_def split: if_splits)
  have "sint r = t" unfolding r using range by (simp add: sint_sbintrunc' signed_take_bit_int_eq_self)
  then show ?thesis using trunc0_abs [of "fmul v 1000"] by (simp add: t_def)
qed

theorem Encode_truncates_witness:
  "Encode (1 / 512) = Some 1 \<and> sint (1 :: int32) = trunc0 (fmul (1 / 512) 1000)"
proof -
  have e: "Encode (1 / 512) = Some 1" by code_simp
  show ?thesis using Encode_truncates [OF e] e by simp
qed

section \<open>The inversion command\<close>

text \<open>
  C7.  A \<^verbatim>\<open>camServ_inv\<close> command whose argument is neither 0 nor 1 leaves the whole
  controller state as it was and prints nothing; with argument 0 or 1 the inversion flag
  takes that value, nothing else changes, and the acknowledgement of that value is printed.
\<close>

theorem inversion_command:
  assumes "m_text c = ''camServ_inv''"
  shows "HandleMessages s c =
    (if m_arguments c 1 = 1 then Some (s\<lparr>m_isInverted := 1\<rparr>, [Print ''camServ_inv:1;''])
     else if m_arguments c 1 = 0 then Some (s\<lparr>m_isInverted := 0\<rparr>, [Print ''camServ_inv:0;''])
     else Some (s, []))"
  using assms by (simp add: HandleMessages_def)

theorem inversion_command_witness:
  "m_text (cmd ''camServ_inv'' 2) = ''camServ_inv'' \<and>
   HandleMessages state_neutral (cmd ''camServ_inv'' 2) = Some (state_neutral, []) \<and>
   HandleMessages state_neutral (cmd ''camServ_inv'' 1) =
     Some (state_neutral\<lparr>m_isInverted := 1\<rparr>, [Print ''camServ_inv:1;''])"
  using inversion_command [of "cmd ''camServ_inv'' 2" state_neutral]
    inversion_command [of "cmd ''camServ_inv'' 1" state_neutral]
  by (simp add: cmd_def)

text \<open>
  Seen from the entry point: on a call that finds such a command and neither timer elapsed,
  \<^verbatim>\<open>Update\<close> returns the state it was given and prints nothing.
\<close>

lemma Update_ignores_other_inversion_argument:
  assumes "isCommandAvailable inp" and "\<not> controlElapsed inp" and "\<not> telemetryElapsed inp"
    and "m_text c = ''camServ_inv''" and "m_arguments c 1 \<noteq> 1" and "m_arguments c 1 \<noteq> 0"
  shows "Update inp c s = Some (s, [])"
  using assms by (simp add: Update_def HandleMessages_def)

section \<open>The command handler and the target\<close>

text \<open>
  C4, as stated, fails.  From power-on, \<^verbatim>\<open>camServ_tpos(10000)\<close> stores ten degrees and
  1582 microseconds, in sync; \<^verbatim>\<open>camServ_inv(1)\<close> then stores the flag and leaves the
  target in microseconds at 1582, although ten degrees inverted are 1391 microseconds.
\<close>

theorem inversion_leaves_target_stale_example:
  "HandleMessages state_neutral (cmd ''camServ_tpos'' 10000) =
     Some (state_target_10, [Print ''camServ_tpos:'', PrintInt 10000, PrintlnChar CHR '';'']) \<and>
   target_in_sync state_target_10 \<and>
   HandleMessages state_target_10 (cmd ''camServ_inv'' 1) =
     Some (state_target_10\<lparr>m_isInverted := 1\<rparr>, [Print ''camServ_inv:1;'']) \<and>
   \<not> target_in_sync (state_target_10\<lparr>m_isInverted := 1\<rparr>)"
  by code_simp

text \<open>
  C4, amended.  After a \<^verbatim>\<open>camServ_tpos\<close> command the target in microseconds is the
  image of the target in degrees under the stored inversion flag.  Every other command
  leaves both target fields as they were; a command other than \<^verbatim>\<open>camServ_tpos\<close> and
  \<^verbatim>\<open>camServ_inv\<close> also leaves the flag, hence keeps the two in sync if they were.
\<close>

theorem HandleMessages_target_sync:
  assumes "HandleMessages s c = Some (s', out)"
  shows "(m_text c = ''camServ_tpos'' \<longrightarrow> target_in_sync s') \<and>
         (m_text c \<noteq> ''camServ_tpos'' \<longrightarrow>
            m_targetPos_deg s' = m_targetPos_deg s \<and> m_targetPos_us s' = m_targetPos_us s) \<and>
         (m_text c \<noteq> ''camServ_tpos'' \<and> m_text c \<noteq> ''camServ_inv'' \<longrightarrow>
            m_isInverted s' = m_isInverted s \<and> (target_in_sync s' \<longleftrightarrow> target_in_sync s))"
  using assms
  by (auto simp add: HandleMessages_def target_in_sync_def Let_def
      split: if_splits option.splits)

theorem HandleMessages_target_sync_witness:
  "HandleMessages state_neutral (cmd ''camServ_tpos'' 10000) =
     Some (state_target_10, [Print ''camServ_tpos:'', PrintInt 10000, PrintlnChar CHR '';'']) \<and>
   target_in_sync state_target_10"
proof -
  have h: "HandleMessages state_neutral (cmd ''camServ_tpos'' 10000) =
     Some (state_target_10, [Print ''camServ_tpos:'', PrintInt 10000, PrintlnChar CHR '';''])"
    by code_simp
  show ?thesis using HandleMessages_target_sync [OF h] h by (simp add: cmd_def)
qed

section \<open>The snap test\<close>

text \<open>
  C1.  The snap is to be taken exactly when \<open>\<bar>error\<bar> / dt < speed\<close>.  The code compares
  the signed quotient: with the position 513 microseconds above the target, 5 ms elapsed and
  the default speed, \<open>\<bar>error\<bar> / dt\<close> is far above the speed, yet the update snaps, straight
  back to neutral.
\<close>

theorem snap_on_negative_error_example:
  "m_currentPos_us state_above \<noteq> m_targetPos_us state_above \<and>
   position_error state_above = - 513 \<and>
   m_speed_us_per_ms state_above
     \<le> \<bar>position_error state_above\<bar> / real_of_int (uint (m_tDelta state_above)) \<and>
   update_branch state_above = Snap \<and>
   UpdatePosition state_above = Some (state_neutral\<lparr>m_tDelta := 5\<rparr>)"
  by code_simp

section \<open>A control tick with no time elapsed\<close>

text \<open>
  C5, as stated, fails.  At power-on with a target of 1582 microseconds, a control tick at
  time 0 has \<^verbatim>\<open>m_tDelta = 0\<close>; the quotient is evaluated, it is plus infinity, and the
  tick takes the move by the delta, to 1532 microseconds.
\<close>

theorem zero_elapsed_step_example:
  "m_tLast state_target_10 = 0 \<and>
   m_currentPos_us state_target_10 \<noteq> m_targetPos_us state_target_10 \<and>
   fdiv (position_error state_target_10) (float_of_u32 (0 - m_tLast state_target_10)) = PosInf \<and>
   update_branch (state_target_10\<lparr>m_tDelta := 0 - m_tLast state_target_10\<rparr>) = Step \<and>
   map_option m_currentPos_us (ControlTick 0 0 state_target_10) = Some 1532"
  by code_simp

text \<open>
  C5, amended.  On a control tick with \<^verbatim>\<open>m_tDelta = 0\<close> away from the target nothing
  guards the division: the quotient of the error by zero is evaluated, and it is minus
  infinity, not a number or plus infinity as the error is negative, zero or positive.  So
  the tick snaps exactly when the error is negative, and moves by the delta otherwise.
\<close>

theorem zero_elapsed_branch:
  assumes "m_tDelta s = 0" and "m_currentPos_us s \<noteq> m_targetPos_us s"
  shows "fdiv (position_error s) (float_of_u32 (m_tDelta s)) =
           (if position_error s = 0 then NaN else if 0 < position_error s then PosInf else NegInf) \<and>
         update_branch s = (if position_error s < 0 then Snap else Step)"
  using assms by (simp add: update_branch_def fdiv_def float_of_u32_def rnd32_zero)

theorem zero_elapsed_branch_witness:
  "m_tDelta state_target_10 = 0 \<and>
   m_currentPos_us state_target_10 \<noteq> m_targetPos_us state_target_10 \<and>
   update_branch state_target_10 = Step"
proof -
  have a: "m_tDelta state_target_10 = 0" by code_simp
  have b: "m_currentPos_us state_target_10 \<noteq> m_targetPos_us state_target_10" by code_simp
  have c: "position_error state_target_10 = 95" by code_simp
  show ?thesis using zero_elapsed_branch [OF a b] a b c by simp
qed

section \<open>One control tick and the target\<close>

lemma negative_error_below_cap:
  assumes "position_error s < 0" and "0 < m_speed_us_per_ms s"
  shows "flt (fdiv (position_error s) (float_of_u32 (m_tDelta s))) (m_speed_us_per_ms s)"
proof (cases "float_of_u32 (m_tDelta s) = 0")
  case True
  then show ?thesis using assms(1) by (simp add: fdiv_def)
next
  case False
  then have "0 < float_of_u32 (m_tDelta s)"
    using float_of_u32_nonneg [of "m_tDelta s"] by simp
  then have "position_error s / float_of_u32 (m_tDelta s) < 0"
    using assms(1) by (simp add: divide_neg_pos)
  then have "rnd32 (position_error s / float_of_u32 (m_tDelta s)) \<le> 0"
    by (intro rnd32_nonpos) simp
  then show ?thesis using False assms(2) by (simp add: fdiv_def)
qed

lemma step_error_nonneg:
  assumes "update_branch s = Step" and "0 < m_speed_us_per_ms s"
  shows "0 \<le> position_error s"
proof (rule ccontr)
  assume "\<not> 0 \<le> position_error s"
  then have "position_error s < 0" by simp
  then have "flt (fdiv (position_error s) (float_of_u32 (m_tDelta s))) (m_speed_us_per_ms s)"
    using assms(2) by (rule negative_error_below_cap)
  then show False using assms(1) by (simp add: update_branch_def split: if_splits)
qed

lemma snap_from_above:
  assumes cons: "u32_of_float (m_fCurrentPos_us s) = Some (m_currentPos_us s)"
    and tgt: "uint (m_targetPos_us s) < 2 ^ 24"
    and spd: "0 < m_speed_us_per_ms s"
    and above: "m_targetPos_us s < m_currentPos_us s"
  shows "update_branch s = Snap"
proof -
  have lt: "uint (m_targetPos_us s) < uint (m_currentPos_us s)"
    using above by (simp add: word_less_def)
  then have "0 < uint (m_currentPos_us s)"
    using uint_ge_0 [of "m_targetPos_us s"] by linarith
  with cons have f: "real_of_int (uint (m_currentPos_us s)) \<le> m_fCurrentPos_us s"
    by (rule u32_of_float_lower)
  have "uint (m_targetPos_us s) + 1 \<le> uint (m_currentPos_us s)" using lt by simp
  then have "real_of_int (uint (m_targetPos_us s) + 1) \<le> real_of_int (uint (m_currentPos_us s))"
    by (simp only: of_int_le_iff)
  then have "float_of_u32 (m_targetPos_us s) - m_fCurrentPos_us s \<le> real_of_int (- 1)"
    using f float_of_u32_exact [OF tgt] by simp
  then have "rnd32 (float_of_u32 (m_targetPos_us s) - m_fCurrentPos_us s) \<le> rnd32 (real_of_int (- 1))"
    by (rule rnd32_mono)
  also have "rnd32 (real_of_int (- 1)) = real_of_int (- 1)" by (rule rnd32_of_int) simp
  finally have "position_error s < 0" by (simp add: position_error_def fsub_def)
  then have "flt (fdiv (position_error s) (float_of_u32 (m_tDelta s))) (m_speed_us_per_ms s)"
    using spd by (rule negative_error_below_cap)
  then show ?thesis using above by (auto simp add: update_branch_def)
qed

lemma step_stays_below:
  assumes cons: "u32_of_float (m_fCurrentPos_us s) = Some (m_currentPos_us s)"
    and tgt: "uint (m_targetPos_us s) < 2 ^ 22"
    and spd0: "0 < m_speed_us_per_ms s"
    and spd1: "m_speed_us_per_ms s \<le> 1"
    and step: "update_branch s = Step"
    and u: "u32_of_float (fadd (m_fCurrentPos_us s) (fmul (m_speed_us_per_ms s) (position_error s))) = Some u"
  shows "u \<le> m_targetPos_us s"
proof -
  define k where "k = uint (m_targetPos_us s)"
  define T where "T = real_of_int k"
  define F where "F = m_fCurrentPos_us s"
  define E where "E = position_error s"
  have k: "0 \<le> k" "k < 2 ^ 22" using tgt by (simp_all add: k_def)
  have T: "0 \<le> T" "T < 2 ^ 22"
    using k by (simp_all add: T_def)
  have "float_of_u32 (m_targetPos_us s) = T"
    unfolding T_def k_def using tgt by (intro float_of_u32_exact) simp
  then have E: "E = rnd32 (T - F)" by (simp add: E_def position_error_def fsub_def F_def)
  have E0: "0 \<le> E" unfolding E_def using step spd0 by (rule step_error_nonneg)
  have Fm: "- 1 < F" unfolding F_def using cons by (rule u32_of_float_Some)
  have D0: "0 \<le> T - F"
  proof (rule ccontr)
    assume "\<not> 0 \<le> T - F"
    then have "rnd32 (T - F) < 0" by (intro rnd32_neg) simp
    then show False using E0 E by simp
  qed
  have "\<bar>T - F\<bar> \<le> (2 ^ 24 - 1) * 2 powi (- 1)"
    using D0 T Fm by (simp add: power_int_minus_divide)
  then have "\<bar>rnd32 (T - F) - (T - F)\<bar> \<le> 2 powi (- 1)" by (rule rnd32_abs_error)
  then have "\<bar>rnd32 (T - F) - (T - F)\<bar> \<le> 1 / 2" by (simp add: power_int_minus_divide)
  then have Eerr: "E \<le> T - F + 1 / 2" unfolding E by linarith
  have idem: "rnd32 E = E" by (simp add: E rnd32_idem)
  have "m_speed_us_per_ms s * E \<le> E" using mult_right_mono [OF spd1 E0] by simp
  then have "rnd32 (m_speed_us_per_ms s * E) \<le> rnd32 E" by (rule rnd32_mono)
  then have "F + fmul (m_speed_us_per_ms s) E \<le> T + 1 / 2"
    using Eerr idem by (simp add: fmul_def)
  then have "fadd F (fmul (m_speed_us_per_ms s) E) \<le> rnd32 (T + 1 / 2)"
    unfolding fadd_def by (rule rnd32_mono)
  also have "T + 1 / 2 = real_of_int (2 * k + 1) * 2 powi (- 1)"
    by (simp add: T_def power_int_minus_divide)
  also have "rnd32 \<dots> = real_of_int (2 * k + 1) * 2 powi (- 1)"
    using k by (intro rnd32_grid) simp
  also have "\<dots> = real_of_int k + 1 / 2" by (simp add: power_int_minus_divide)
  finally have "trunc0 (fadd F (fmul (m_speed_us_per_ms s) E)) \<le> k"
    using k(1) by (rule trunc0_le)
  moreover have "uint u = trunc0 (fadd F (fmul (m_speed_us_per_ms s) E))"
    using u unfolding F_def E_def by (rule u32_of_float_Some)
  ultimately show ?thesis by (simp add: word_le_def k_def)
qed

text \<open>
  The position in microseconds is the truncated precise position: at power-on, after every
  command, and after every control tick while the target is below \<open>2 ^ 24\<close>.
\<close>

lemma position_consistent_initially:
  "u32_of_float (m_fCurrentPos_us initial_state) = Some (m_currentPos_us initial_state)"
  unfolding initial_state_value by code_simp

lemma position_consistent_command:
  assumes "HandleMessages s c = Some (s', out)"
  shows "m_fCurrentPos_us s' = m_fCurrentPos_us s \<and> m_currentPos_us s' = m_currentPos_us s"
  using assms
  by (auto simp add: HandleMessages_def Let_def split: if_splits option.splits)

lemma position_consistent_tick:
  assumes tick: "ControlTick now now' s = Some s'"
    and cons: "u32_of_float (m_fCurrentPos_us s) = Some (m_currentPos_us s)"
    and tgt: "uint (m_targetPos_us s) < 2 ^ 24"
  shows "u32_of_float (m_fCurrentPos_us s') = Some (m_currentPos_us s')"
proof -
  define s1 where "s1 = s\<lparr>m_tDelta := now - m_tLast s\<rparr>"
  obtain s2 where up: "UpdatePosition s1 = Some s2" and s': "s' = s2\<lparr>m_tLast := now'\<rparr>"
    using tick by (auto simp add: ControlTick_def s1_def split: option.splits)
  have "float_of_u32 (m_targetPos_us s1) = real_of_int (uint (m_targetPos_us s1))"
    using tgt by (intro float_of_u32_exact) (simp add: s1_def)
  then have snap: "u32_of_float (float_of_u32 (m_targetPos_us s1)) = Some (m_targetPos_us s1)"
    by (simp only: u32_of_float_of_u32)
  have "u32_of_float (m_fCurrentPos_us s2) = Some (m_currentPos_us s2)"
    using up cons snap
    by (cases "update_branch s1")
      (auto simp add: UpdatePosition_def publish_position_def SetServoPosition_def Let_def s1_def
        split: option.splits)
  then show ?thesis by (simp add: s')
qed

text \<open>
  C2, as stated, fails.  From power-on, \<^verbatim>\<open>camServ_spd(1000000)\<close> sets a speed of about
  9.52 microseconds per millisecond and \<^verbatim>\<open>camServ_tpos(10000)\<close> a target of 1582
  microseconds.  The next control tick, 5 ms later, moves by the speed times the error of 95,
  from 1487 to 2391 microseconds: past the target.
\<close>

theorem fast_speed_overshoot_example:
  "HandleMessages state_neutral (cmd ''camServ_spd'' 1000000) =
     Some (state_neutral\<lparr>m_speed_deg_per_s := 16384001 / 16384,
             m_speed_us_per_ms := 9986439 / 1048576\<rparr>,
           [Print ''camServ_spd:'', PrintInt 1000000, PrintlnChar CHR '';'']) \<and>
   HandleMessages
       (state_neutral\<lparr>m_speed_deg_per_s := 16384001 / 16384,
          m_speed_us_per_ms := 9986439 / 1048576\<rparr>)
       (cmd ''camServ_tpos'' 10000) =
     Some (state_fast, [Print ''camServ_tpos:'', PrintInt 10000, PrintlnChar CHR '';'']) \<and>
   m_currentPos_us state_fast \<le> m_targetPos_us state_fast \<and>
   ControlTick 5 5 state_fast =
     Some (state_fast\<lparr>m_currentPos_deg := 12441355 / 131072, m_currentPos_us := 2391,
             m_fCurrentPos_us := 9796657 / 4096, m_tDelta := 5, m_tLast := 5,
             OCR1A := 4782\<rparr>) \<and>
   \<not> (2391 :: uint32) \<le> m_targetPos_us state_fast"
  by code_simp

text \<open>
  C2, amended.  Let the position in microseconds be the truncated precise position, as it
  is after every update, the target be below \<open>2 ^ 22\<close> microseconds, and the speed be
  positive and at most one microsecond per millisecond.  Then, whatever time has elapsed,
  one control tick leaves the target alone and never moves the position past it: a position
  at or below the target stays at or below it, and a position at or above it stays at or
  above it.
\<close>

theorem tick_no_overshoot:
  assumes tick: "ControlTick now now' s = Some s'"
    and cons: "u32_of_float (m_fCurrentPos_us s) = Some (m_currentPos_us s)"
    and tgt: "uint (m_targetPos_us s) < 2 ^ 22"
    and spd0: "0 < m_speed_us_per_ms s"
    and spd1: "m_speed_us_per_ms s \<le> 1"
  shows "m_targetPos_us s' = m_targetPos_us s \<and>
         (m_currentPos_us s \<le> m_targetPos_us s \<longrightarrow> m_currentPos_us s' \<le> m_targetPos_us s') \<and>
         (m_targetPos_us s \<le> m_currentPos_us s \<longrightarrow> m_targetPos_us s' \<le> m_currentPos_us s')"
proof -
  define s1 where "s1 = s\<lparr>m_tDelta := now - m_tLast s\<rparr>"
  have cons1: "u32_of_float (m_fCurrentPos_us s1) = Some (m_currentPos_us s1)"
    and tgt1: "uint (m_targetPos_us s1) < 2 ^ 22"
    and spd01: "0 < m_speed_us_per_ms s1" and spd11: "m_speed_us_per_ms s1 \<le> 1"
    using cons tgt spd0 spd1 by (simp_all add: s1_def)
  have same: "m_targetPos_us s1 = m_targetPos_us s" "m_currentPos_us s1 = m_currentPos_us s"
    by (simp_all add: s1_def)
  obtain s2 where up: "UpdatePosition s1 = Some s2" and s': "s' = s2\<lparr>m_tLast := now'\<rparr>"
    using tick by (auto simp add: ControlTick_def s1_def split: option.splits)
  have tgt24: "uint (m_targetPos_us s1) < 2 ^ 24" using tgt1 by simp
  have "m_targetPos_us s2 = m_targetPos_us s1 \<and>
        (m_currentPos_us s1 \<le> m_targetPos_us s1 \<longrightarrow> m_currentPos_us s2 \<le> m_targetPos_us s1) \<and>
        (m_targetPos_us s1 \<le> m_currentPos_us s1 \<longrightarrow> m_targetPos_us s1 \<le> m_currentPos_us s2)"
  proof (cases "update_branch s1")
    case Hold
    then show ?thesis using up by (simp add: UpdatePosition_def)
  next
    case Snap
    then show ?thesis using up
      by (auto simp add: UpdatePosition_def publish_position_def SetServoPosition_def)
  next
    case Step
    then obtain u where
      u: "u32_of_float (fadd (m_fCurrentPos_us s1) (fmul (m_speed_us_per_ms s1) (position_error s1))) = Some u"
      and s2: "m_currentPos_us s2 = u" "m_targetPos_us s2 = m_targetPos_us s1"
      using up
      by (auto simp add: UpdatePosition_def publish_position_def SetServoPosition_def Let_def
          split: option.splits)
    have below: "u \<le> m_targetPos_us s1"
      using cons1 tgt1 spd01 spd11 Step u by (rule step_stays_below)
    have "\<not> m_targetPos_us s1 < m_currentPos_us s1"
      using snap_from_above [OF cons1 tgt24 spd01] Step by auto
    moreover have "m_currentPos_us s1 \<noteq> m_targetPos_us s1"
      using Step by (auto simp add: update_branch_def split: if_splits)
    ultimately have "\<not> m_targetPos_us s1 \<le> m_currentPos_us s1" by auto
    then show ?thesis using below s2 by simp
  qed
  then show ?thesis by (simp add: s' same)
qed

theorem tick_no_overshoot_witness:
  "ControlTick 5 5 state_target_10 =
     Some (state_target_10\<lparr>m_currentPos_deg := 2477261 / 524288, m_currentPos_us := 1532,
             m_fCurrentPos_us := 6276047 / 4096, m_tDelta := 5, m_tLast := 5,
             OCR1A := 3064\<rparr>) \<and>
   m_currentPos_us state_target_10 \<le> m_targetPos_us state_target_10 \<and>
   (1532 :: uint32) \<le> m_targetPos_us state_target_10"
proof -
  have tick: "ControlTick 5 5 state_target_10 =
     Some (state_target_10\<lparr>m_currentPos_deg := 2477261 / 524288, m_currentPos_us := 1532,
             m_fCurrentPos_us := 6276047 / 4096, m_tDelta := 5, m_tLast := 5,
             OCR1A := 3064\<rparr>)"
    by code_simp
  have cons: "u32_of_float (m_fCurrentPos_us state_target_10) = Some (m_currentPos_us state_target_10)"
    by code_simp
  have tgt: "uint (m_targetPos_us state_target_10) < 2 ^ 22" by code_simp
  have spd0: "0 < m_speed_us_per_ms state_target_10" by code_simp
  have spd1: "m_speed_us_per_ms state_target_10 \<le> 1" by code_simp
  have le: "m_currentPos_us state_target_10 \<le> m_targetPos_us state_target_10" by code_simp
  show ?thesis using tick_no_overshoot [OF tick cons tgt spd0 spd1] tick le by simp
qed

section \<open>Reaching the target\<close>

text \<open>
  At the target a control tick changes nothing but the clock fields, and from above the
  target one tick snaps onto it.  From below, the approach can come to rest short of it.
\<close>

lemma holds_at_target:
  assumes "m_currentPos_us s = m_targetPos_us s"
  shows "ControlTick now now' s = Some (s\<lparr>m_tDelta := now - m_tLast s, m_tLast := now'\<rparr>)"
  using assms by (simp add: ControlTick_def UpdatePosition_def update_branch_def)

lemma reaches_target_from_above:
  assumes cons: "u32_of_float (m_fCurrentPos_us s) = Some (m_currentPos_us s)"
    and tgt: "uint (m_targetPos_us s) < 2 ^ 24"
    and spd: "0 < m_speed_us_per_ms s"
    and above: "m_targetPos_us s < m_currentPos_us s"
  shows "\<exists>s'. ControlTick now now' s = Some s' \<and> m_currentPos_us s' = m_targetPos_us s \<and>
          m_targetPos_us s' = m_targetPos_us s"
proof -
  have "update_branch (s\<lparr>m_tDelta := now - m_tLast s\<rparr>) = Snap"
    using cons tgt spd above by (intro snap_from_above) simp_all
  then show ?thesis
    by (simp add: ControlTick_def UpdatePosition_def publish_position_def SetServoPosition_def)
qed

text \<open>
  The speed and the target of \<open>state_stalled\<close> are what two commands set from power-on.
\<close>

lemma slow_approach_commands:
  "HandleMessages state_neutral (cmd ''camServ_spd'' 300) =
     Some (state_neutral\<lparr>m_speed_deg_per_s := 5033165 / 16777216,
             m_speed_us_per_ms := 1533917 / 536870912\<rparr>,
           [Print ''camServ_spd:'', PrintInt 300, PrintlnChar CHR '';'']) \<and>
   HandleMessages
       (state_neutral\<lparr>m_speed_deg_per_s := 5033165 / 16777216,
          m_speed_us_per_ms := 1533917 / 536870912\<rparr>)
       (cmd ''camServ_tpos'' 1400) =
     Some (state_stalled\<lparr>m_currentPos_deg := 0, m_currentPos_us := 1487,
             m_fCurrentPos_us := 1487, m_tDelta := 0, OCR1A := 2974\<rparr>,
           [Print ''camServ_tpos:'', PrintInt 1400, PrintlnChar CHR '';''])"
  by code_simp

lemma stalled_error: "fsub (float_of_u32 1500) (6143913 / 4096) = 87 / 4096"
  by code_simp

lemma stalled_above_cap: "\<not> flt (fdiv (87 / 4096) (float_of_u32 5)) (1533917 / 536870912)"
  by code_simp

lemma stalled_step_absorbed:
  "fadd (6143913 / 4096) (fmul (1533917 / 536870912) (87 / 4096)) = 6143913 / 4096"
  by code_simp

lemma stalled_truncated: "u32_of_float (6143913 / 4096) = Some 1499"
  by code_simp

lemma stalled_degrees: "MicrosecondsToDegrees 1499 False = 5284823 / 4194304"
  by code_simp

lemma stalled_tick:
  "ControlTick (t + 5) (t + 5) (state_stalled\<lparr>m_tLast := t\<rparr>) = Some (state_stalled\<lparr>m_tLast := t + 5\<rparr>)"
  by (simp add: ControlTick_def UpdatePosition_def update_branch_def position_error_def
      publish_position_def SetServoPosition_def state_stalled_def stalled_error
      stalled_above_cap stalled_step_absorbed stalled_truncated stalled_degrees)

lemma stalled_ticks:
  "ticks n 5 (state_stalled\<lparr>m_tLast := t\<rparr>) = Some (state_stalled\<lparr>m_tLast := t + 5 * of_nat n\<rparr>)"
proof (induction n arbitrary: t)
  case 0
  show ?case by simp
next
  case (Suc n)
  have "ticks (Suc n) 5 (state_stalled\<lparr>m_tLast := t\<rparr>) = ticks n 5 (state_stalled\<lparr>m_tLast := t + 5\<rparr>)"
    by (simp add: stalled_tick)
  also have "\<dots> = Some (state_stalled\<lparr>m_tLast := t + 5 + 5 * of_nat n\<rparr>)" by (rule Suc.IH)
  finally show ?case by (simp add: algebra_simps)
qed

text \<open>
  C3.  Repeated control ticks are to bring the position to the target in finitely many
  ticks, for every positive speed.  At 0.3 degrees per second they do not: one microsecond
  below the target of 1500 the error of 87/4096 divided by 5 ms is still above the speed, so
  the tick moves by the delta, and the delta is less than half the spacing of the floats
  around 1500, so the precise position does not change.  Every further tick repeats this.
\<close>

theorem stalled_below_target:
  "0 < m_speed_us_per_ms state_stalled \<and>
   m_currentPos_us state_stalled = 1499 \<and> m_targetPos_us state_stalled = 1500 \<and>
   ticks n 5 state_stalled = Some (state_stalled\<lparr>m_tLast := 5 * of_nat n\<rparr>)"
proof -
  have "state_stalled\<lparr>m_tLast := 0\<rparr> = state_stalled" by (simp add: state_stalled_def)
  then show ?thesis using stalled_ticks [of n 0] by (simp add: state_stalled_def)
qed

section \<open>The position in degrees\<close>

text \<open>
  C6, as stated, fails in its second half.  With the inversion set and a target of ten
  degrees, 1391 microseconds, one control tick from neutral reaches the target; the position
  in degrees is then about minus 10.08, not minus ten, and the telemetry prints -10080.
\<close>

theorem inverted_position_example:
  "target_in_sync state_inverted_10 \<and>
   ControlTick 5 5 state_inverted_10 =
     Some (state_inverted_10\<lparr>m_currentPos_deg := - (5284823 / 524288), m_currentPos_us := 1391,
             m_fCurrentPos_us := 1391, m_tDelta := 5, m_tLast := 5, OCR1A := 2782\<rparr>) \<and>
   - (5284823 / 524288) \<noteq> - m_targetPos_deg state_inverted_10 \<and>
   EmitTelemetry
       (state_inverted_10\<lparr>m_currentPos_deg := - (5284823 / 524288), m_currentPos_us := 1391,
          m_fCurrentPos_us := 1391, m_tDelta := 5, m_tLast := 5, OCR1A := 2782\<rparr>) =
     Some [Print ''camServ_pos:'', PrintInt (- 10080), PrintlnChar CHR '';'']"
  by code_simp

text \<open>
  C6, amended.  Every control tick that moves the position recomputes the position in
  degrees from the position in microseconds as if not inverted.  So for a target within 150
  degrees commanded while the inversion is set, once the position has reached the target
  the position in degrees is the negated inverted image of the target pulse width, within
  0.106 degrees of the negated target angle.
\<close>

theorem position_in_degrees_ignores_inversion:
  assumes tick: "ControlTick now now' s = Some s'"
    and moved: "update_branch (s\<lparr>m_tDelta := now - m_tLast s\<rparr>) \<noteq> Hold"
  shows "m_currentPos_deg s' = MicrosecondsToDegrees (m_currentPos_us s') False \<and>
         (m_isInverted s \<noteq> 0 \<and> target_in_sync s \<and> \<bar>m_targetPos_deg s\<bar> \<le> 150 \<and>
          m_currentPos_us s' = m_targetPos_us s' \<longrightarrow>
            m_currentPos_deg s' = - MicrosecondsToDegrees (m_targetPos_us s) True \<and>
            \<bar>m_currentPos_deg s' - (- m_targetPos_deg s)\<bar> < 53 / 500)"
proof -
  define s1 where "s1 = s\<lparr>m_tDelta := now - m_tLast s\<rparr>"
  obtain s2 where up: "UpdatePosition s1 = Some s2" and s': "s' = s2\<lparr>m_tLast := now'\<rparr>"
    using tick by (auto simp add: ControlTick_def s1_def split: option.splits)
  have s2: "m_currentPos_deg s2 = MicrosecondsToDegrees (m_currentPos_us s2) False"
    "m_targetPos_us s2 = m_targetPos_us s"
    using up moved unfolding s1_def [symmetric]
    by (cases "update_branch s1";
        auto simp add: UpdatePosition_def publish_position_def SetServoPosition_def Let_def s1_def
          split: option.splits)+
  have first: "m_currentPos_deg s' = MicrosecondsToDegrees (m_currentPos_us s') False"
    using s2 by (simp add: s')
  have "m_currentPos_deg s' = - MicrosecondsToDegrees (m_targetPos_us s) True \<and>
        \<bar>m_currentPos_deg s' - (- m_targetPos_deg s)\<bar> < 53 / 500"
    if inv: "m_isInverted s \<noteq> 0" and sync: "target_in_sync s"
      and range: "\<bar>m_targetPos_deg s\<bar> \<le> 150"
      and there: "m_currentPos_us s' = m_targetPos_us s'"
  proof -
    have deg: "m_currentPos_deg s' = MicrosecondsToDegrees (m_targetPos_us s) False"
      using first there s2 by (simp add: s')
    have "\<bar>- m_targetPos_deg s\<bar> \<le> 150" using range by simp
    from round_trip_core [OF this] obtain u where
      u: "u32_of_float (fadd (fmul kMicrosecPerDegree (- m_targetPos_deg s)) kZeroPosMicrosecs) = Some u"
      and near: "\<bar>fmul (fsub (float_of_u32 u) kZeroPosMicrosecs) kDegPerMicrosec - (- m_targetPos_deg s)\<bar> < 53 / 500"
      by auto
    have "u = m_targetPos_us s"
      using sync inv u by (simp add: target_in_sync_def DegreesToMicroseconds_def)
    then show ?thesis using deg near by (simp add: MicrosecondsToDegrees_def)
  qed
  then show ?thesis using first by blast
qed

theorem position_in_degrees_ignores_inversion_witness:
  "ControlTick 5 5 state_inverted_10 =
     Some (state_inverted_10\<lparr>m_currentPos_deg := - (5284823 / 524288), m_currentPos_us := 1391,
             m_fCurrentPos_us := 1391, m_tDelta := 5, m_tLast := 5, OCR1A := 2782\<rparr>) \<and>
   update_branch (state_inverted_10\<lparr>m_tDelta := 5 - m_tLast state_inverted_10\<rparr>) \<noteq> Hold \<and>
   MicrosecondsToDegrees 1391 False = - (5284823 / 524288) \<and>
   \<bar>- (5284823 / 524288) - (- m_targetPos_deg state_inverted_10)\<bar> < 53 / 500"
proof -
  have tick: "ControlTick 5 5 state_inverted_10 =
     Some (state_inverted_10\<lparr>m_currentPos_deg := - (5284823 / 524288), m_currentPos_us := 1391,
             m_fCurrentPos_us := 1391, m_tDelta := 5, m_tLast := 5, OCR1A := 2782\<rparr>)"
    by code_simp
  have moved: "update_branch (state_inverted_10\<lparr>m_tDelta := 5 - m_tLast state_inverted_10\<rparr>) \<noteq> Hold"
    by code_simp
  have inv: "m_isInverted state_inverted_10 \<noteq> 0" by code_simp
  have sync: "target_in_sync state_inverted_10" by code_simp
  have range: "\<bar>m_targetPos_deg state_inverted_10\<bar> \<le> 150" by code_simp
  show ?thesis
    using position_in_degrees_ignores_inversion [OF tick moved] tick moved inv sync range
    by (simp add: state_inverted_10_def)
qed

end
